theory Spec2Isabelle
  imports Main "HOL-Library.Word"
begin

section \<open>The search widget of \<^verbatim>\<open>src/App.tsx\<close>\<close>

text \<open>
  The component \<^verbatim>\<open>App\<close> keeps seven state variables, one debounce timer and two
  kinds of outbound HTTP requests. The embedding has three layers: the values of the
  language (strings, thrown values, the URI encoder), the state of the component with its
  handlers, and the world around it (the pending timer, the requests in flight, the log
  of requests sent) driven by a list of events.
\<close>

subsection \<open>Strings of the language\<close>

text \<open>
  A JavaScript string is a sequence of UTF-16 code units; \<^verbatim>\<open>query.length\<close> counts
  them. Literals of the source are written through \<open>js\<close>.
\<close>

type_synonym code_unit = "16 word"
type_synonym js_string = "code_unit list"

definition js :: "string \<Rightarrow> js_string" where
  "js s = map of_char s"

text \<open>A thrown value: an instance of \<^verbatim>\<open>Error\<close> with its message, or anything else.\<close>

datatype thrown = Error js_string | NonError

text \<open>
  \<^verbatim>\<open>${response.status}\<close> prints the status of a response, a small natural number,
  as its decimal numeral.
\<close>

fun digits :: "nat \<Rightarrow> js_string" where
  "digits n = (if n < 10 then [of_nat (48 + n)] else digits (n div 10) @ [of_nat (48 + n mod 10)])"

declare digits.simps [simp del]

text \<open>\<^verbatim>\<open>Array.prototype.join\<close>, on elements already turned into strings.\<close>

fun join :: "js_string \<Rightarrow> js_string list \<Rightarrow> js_string" where
  "join sep [] = []"
| "join sep [x] = x"
| "join sep (x # y # ys) = x @ sep @ join sep (y # ys)"

subsection \<open>\<^verbatim>\<open>encodeURIComponent\<close>\<close>

text \<open>
  The built-in of ECMA-262 (the abstract operation Encode with the unreserved set of
  \<^verbatim>\<open>encodeURIComponent\<close>): letters, digits and \<^verbatim>\<open>- _ . ! ~ * ' ( )\<close> are
  kept; every other code point is written as the percent-escaped octets of its UTF-8
  encoding; an unpaired surrogate throws a \<^verbatim>\<open>URIError\<close> (its message is the
  engine's; the one of V8 is used).
\<close>

definition uriUnreserved :: "code_unit \<Rightarrow> bool" where
  "uriUnreserved c =
     ((0x41 \<le> c \<and> c \<le> 0x5A) \<or> (0x61 \<le> c \<and> c \<le> 0x7A) \<or> (0x30 \<le> c \<and> c \<le> 0x39)
      \<or> c \<in> set (js ''-_.!~*()'') \<or> c = 0x27)"

definition leadingSurrogate :: "code_unit \<Rightarrow> bool" where
  "leadingSurrogate c = (0xD800 \<le> c \<and> c \<le> 0xDBFF)"

definition trailingSurrogate :: "code_unit \<Rightarrow> bool" where
  "trailingSurrogate c = (0xDC00 \<le> c \<and> c \<le> 0xDFFF)"

definition surrogatePair :: "code_unit \<Rightarrow> code_unit \<Rightarrow> nat" where
  "surrogatePair lead trail = (unat lead - 0xD800) * 0x400 + (unat trail - 0xDC00) + 0x10000"

definition utf8 :: "nat \<Rightarrow> nat list" where
  "utf8 cp =
     (if cp < 0x80 then [cp]
      else if cp < 0x800 then [0xC0 + cp div 0x40, 0x80 + cp mod 0x40]
      else if cp < 0x10000 then
        [0xE0 + cp div 0x1000, 0x80 + cp div 0x40 mod 0x40, 0x80 + cp mod 0x40]
      else
        [0xF0 + cp div 0x40000, 0x80 + cp div 0x1000 mod 0x40,
         0x80 + cp div 0x40 mod 0x40, 0x80 + cp mod 0x40])"

definition hexDigit :: "nat \<Rightarrow> code_unit" where
  "hexDigit d = (if d < 10 then of_nat (48 + d) else of_nat (55 + d))"

definition escape :: "nat list \<Rightarrow> js_string" where
  "escape octets = concat (map (\<lambda>b. [0x25, hexDigit (b div 16), hexDigit (b mod 16)]) octets)"

definition URIError :: thrown where
  "URIError = Error (js ''URI malformed'')"

fun encodeURIComponent :: "js_string \<Rightarrow> thrown + js_string" where
  "encodeURIComponent [] = Inr []"
| "encodeURIComponent (c # cs) =
     (if uriUnreserved c then
        (case encodeURIComponent cs of Inl t \<Rightarrow> Inl t | Inr r \<Rightarrow> Inr (c # r))
      else if trailingSurrogate c then Inl URIError
      else if leadingSurrogate c then
        (case cs of
           [] \<Rightarrow> Inl URIError
         | d # ds \<Rightarrow>
             if trailingSurrogate d then
               (case encodeURIComponent ds of
                  Inl t \<Rightarrow> Inl t
                | Inr r \<Rightarrow> Inr (escape (utf8 (surrogatePair c d)) @ r))
             else Inl URIError)
      else
        (case encodeURIComponent cs of
           Inl t \<Rightarrow> Inl t
         | Inr r \<Rightarrow> Inr (escape (utf8 (unat c)) @ r)))"

subsection \<open>Data of the component\<close>

text \<open>
  \<^verbatim>\<open>interface RobloxUser\<close> (the field \<^verbatim>\<open>id\<close> is written \<open>id'\<close>) and one entry of
  \<^verbatim>\<open>ThumbnailResponse.data\<close>.
\<close>

record RobloxUser =
  previousUsernames :: "js_string list"
  hasVerifiedBadge :: bool
  id' :: int
  name :: js_string
  displayName :: js_string

record Thumbnail =
  targetId :: int
  state :: js_string
  imageUrl :: js_string

text \<open>The seven \<^verbatim>\<open>useState\<close> variables of \<^verbatim>\<open>App\<close>, lines 26 to 32.\<close>

record App =
  query :: js_string
  users :: "RobloxUser list"
  isLoading :: bool
  error :: "js_string option"
  showDropdown :: bool
  selectedUser :: "RobloxUser option"
  avatarUrls :: "int \<rightharpoonup> js_string"

definition useState :: App where
  "useState = \<lparr>query = [], users = [], isLoading = False, error = None,
     showDropdown = False, selectedUser = None, avatarUrls = Map.empty\<rparr>"

text \<open>
  How a \<^verbatim>\<open>fetch\<close> followed by \<^verbatim>\<open>response.json()\<close> settles: the promise rejects (a
  network error), or a response arrives with a status and a body; reading the body
  throws, or yields an object whose \<^verbatim>\<open>data\<close> field is a list or is absent.
\<close>

datatype 'a body = Unreadable thrown | Json "'a list option"

datatype 'a settled = Rejected thrown | Response nat "'a body"

definition ok :: "nat \<Rightarrow> bool" where
  "ok status = (200 \<le> status \<and> status \<le> 299)"

text \<open>
  An outbound request: every one is a GET. A search request is kept as its URL and its
  headers. The avatar request of line 48 is kept as the list of ids it asks for: its URL
  holds their numerals, and how the engine prints a number (\<^verbatim>\<open>Number::toString\<close>, on
  a double) is not part of the source. \<open>avatar_url\<close> builds the URL of line 48 from
  whatever that printing is.
\<close>

datatype request =
    GET js_string "(js_string \<times> js_string) list"
  | AvatarBatch "int list"

definition search_request :: "js_string \<Rightarrow> request" where
  "search_request keyword =
     GET (js ''/api/v1/users/search?keyword='' @ keyword @ js ''&limit=10'')
       [(js ''Accept'', js ''application/json'')]"

definition avatar_url :: "(int \<Rightarrow> js_string) \<Rightarrow> int list \<Rightarrow> js_string" where
  "avatar_url toString userIds =
     js ''https://thumbnails.roblox.com/v1/users/avatar-headshot?userIds=''
     @ join (js '','') (map toString userIds) @ js ''&size=150x150&format=Png''"

subsection \<open>The handlers, on the state of the component\<close>

text \<open>\<^verbatim>\<open>handleClickOutside\<close>, lines 36 to 40; the flag says whether the target of the
  pointer event lies inside the subtree of \<^verbatim>\<open>dropdownRef\<close>.\<close>

definition handleClickOutside :: "bool \<Rightarrow> App \<Rightarrow> App" where
  "handleClickOutside inside s = (if \<not> inside then s\<lparr>showDropdown := False\<rparr> else s)"

text \<open>\<^verbatim>\<open>handleUserClick\<close>, lines 61 to 65.\<close>

definition handleUserClick :: "RobloxUser \<Rightarrow> App \<Rightarrow> App" where
  "handleUserClick user s = s\<lparr>selectedUser := Some user, showDropdown := False, query := []\<rparr>"

text \<open>The handler of \<^verbatim>\<open>Dialog.Root\<close>, line 181:
  \<^verbatim>\<open>(open) => !open && setSelectedUser(null)\<close>.\<close>

definition onOpenChange :: "bool \<Rightarrow> App \<Rightarrow> App" where
  "onOpenChange opened s = (if \<not> opened then s\<lparr>selectedUser := None\<rparr> else s)"

text \<open>The button beside the input, line 126.\<close>

definition onClickSearch :: "App \<Rightarrow> App" where
  "onClickSearch s = s\<lparr>showDropdown := True\<rparr>"

text \<open>The \<^verbatim>\<open>catch\<close> and \<^verbatim>\<open>finally\<close> blocks of \<^verbatim>\<open>searchUsers\<close>, lines 98 to 105.\<close>

definition errorMessage :: "thrown \<Rightarrow> js_string" where
  "errorMessage t = (case t of Error message \<Rightarrow> message | NonError \<Rightarrow> js ''An unknown error occurred'')"

definition search_catch :: "thrown \<Rightarrow> App \<Rightarrow> App" where
  "search_catch t s = s\<lparr>error := Some (errorMessage t), users := []\<rparr>"

definition search_finally :: "App \<Rightarrow> App" where
  "search_finally s = s\<lparr>isLoading := False\<rparr>"

text \<open>
  What the \<^verbatim>\<open>try\<close> block of \<^verbatim>\<open>searchUsers\<close> obtains once the request has settled,
  lines 79 to 92: a thrown value, or the \<^verbatim>\<open>data\<close> field of the body.
\<close>

definition search_awaited :: "RobloxUser settled \<Rightarrow> thrown + RobloxUser list option" where
  "search_awaited r =
     (case r of
        Rejected t \<Rightarrow> Inl t
      | Response status b \<Rightarrow>
          if \<not> ok status then Inl (Error (js ''HTTP error! status: '' @ digits status))
          else (case b of Unreadable t \<Rightarrow> Inl t | Json d \<Rightarrow> Inr d))"

text \<open>
  The same for \<^verbatim>\<open>fetchAvatarUrls\<close>, lines 48 to 51; \<^verbatim>\<open>data.data.reduce\<close> throws a
  \<^verbatim>\<open>TypeError\<close> when the field is absent.
\<close>

definition avatars_awaited :: "Thumbnail settled \<Rightarrow> thrown + Thumbnail list" where
  "avatars_awaited r =
     (case r of
        Rejected t \<Rightarrow> Inl t
      | Response status b \<Rightarrow>
          if \<not> ok status then Inl (Error (js ''Failed to fetch avatars''))
          else (case b of
                  Unreadable t \<Rightarrow> Inl t
                | Json None \<Rightarrow> Inl (Error (js ''Cannot read properties of undefined''))
                | Json (Some items) \<Rightarrow> Inr items))"

text \<open>The \<^verbatim>\<open>reduce\<close> of lines 51 to 54 and the merge of line 55.\<close>

definition newUrls :: "Thumbnail list \<Rightarrow> (int \<rightharpoonup> js_string)" where
  "newUrls items = foldl (\<lambda>acc item. acc(targetId item \<mapsto> imageUrl item)) Map.empty items"

definition setAvatarUrls :: "Thumbnail list \<Rightarrow> App \<Rightarrow> App" where
  "setAvatarUrls items s = s\<lparr>avatarUrls := avatarUrls s ++ newUrls items\<rparr>"

text \<open>What is rendered below the input, lines 132 to 176. A string is falsy when empty.\<close>

datatype dropdown = Hidden | Loading | Failed js_string | Populated "RobloxUser list" | Empty

definition dropdown_state :: "App \<Rightarrow> dropdown" where
  "dropdown_state s =
     (if showDropdown s \<and> length (query s) > 0 then
        (if isLoading s then Loading
         else if error s \<noteq> None \<and> error s \<noteq> Some [] then Failed (the (error s))
         else if length (users s) > 0 then Populated (users s)
         else Empty)
      else Hidden)"

subsection \<open>The component in its environment\<close>

text \<open>
  Around the state of the component: the pending debounce timer (the query its closure
  captured and the milliseconds left), the number of search requests and of avatar
  requests in flight, and the log of the requests sent so far, oldest first.
\<close>

record world =
  app :: App
  debounceTimeout :: "(js_string \<times> nat) option"
  searching :: nat
  resolving :: nat
  sent :: "request list"

text \<open>
  The effect of lines 67 to 110 has the dependency list \<^verbatim>\<open>[query]\<close>: after an update
  that changed the query, its cleanup clears the pending timeout and the effect sets a
  new one of 300 ms for \<^verbatim>\<open>searchUsers\<close> closed over the new query. An update that
  leaves the query as it was does not run it.
\<close>

definition useEffect :: "js_string \<Rightarrow> world \<Rightarrow> world" where
  "useEffect previous w =
     (if query (app w) = previous then w
      else w\<lparr>debounceTimeout := Some (query (app w), 300)\<rparr>)"

text \<open>\<^verbatim>\<open>fetchAvatarUrls\<close>, lines 46 to 59: up to its \<^verbatim>\<open>await\<close>, and from there on.\<close>

definition fetchAvatarUrls :: "int list \<Rightarrow> world \<Rightarrow> world" where
  "fetchAvatarUrls userIds w =
     w\<lparr>resolving := Suc (resolving w), sent := sent w @ [AvatarBatch userIds]\<rparr>"

definition fetchAvatarUrls_settled :: "Thumbnail settled \<Rightarrow> world \<Rightarrow> world" where
  "fetchAvatarUrls_settled r w =
     (case avatars_awaited r of
        Inl t \<Rightarrow> w
      | Inr items \<Rightarrow> w\<lparr>app := setAvatarUrls items (app w)\<rparr>)"

text \<open>\<^verbatim>\<open>searchUsers\<close>, lines 68 to 106: up to its \<^verbatim>\<open>await\<close>, and from there on.\<close>

definition searchUsers :: "js_string \<Rightarrow> world \<Rightarrow> world" where
  "searchUsers q w =
     (if length q < 2 then w\<lparr>app := (app w)\<lparr>users := [], error := None\<rparr>\<rparr>
      else
        let w1 = w\<lparr>app := (app w)\<lparr>isLoading := True, error := None\<rparr>\<rparr> in
        case encodeURIComponent q of
          Inl t \<Rightarrow> w1\<lparr>app := search_finally (search_catch t (app w1))\<rparr>
        | Inr keyword \<Rightarrow>
            w1\<lparr>searching := Suc (searching w1), sent := sent w1 @ [search_request keyword]\<rparr>)"

definition searchUsers_settled :: "RobloxUser settled \<Rightarrow> world \<Rightarrow> world" where
  "searchUsers_settled r w =
     (case search_awaited r of
        Inl t \<Rightarrow> w\<lparr>app := search_finally (search_catch t (app w))\<rparr>
      | Inr d \<Rightarrow>
          let w1 = w\<lparr>app := (app w)\<lparr>users := (case d of None \<Rightarrow> [] | Some ps \<Rightarrow> ps)\<rparr>\<rparr>;
              w2 = (case d of
                      None \<Rightarrow> w1
                    | Some ps \<Rightarrow> if length ps > 0 then fetchAvatarUrls (map id' ps) w1 else w1)
          in w2\<lparr>app := search_finally ((app w2)\<lparr>showDropdown := True\<rparr>)\<rparr>)"

text \<open>
  What can happen to the mounted component: the input changes, the search button is
  clicked, a pointer goes down inside or outside the widget, a rendered row is clicked,
  the dialog asks to open or close, time passes, a request in flight settles.
\<close>

datatype event =
    Change js_string
  | ClickSearch
  | MouseDown bool
  | ClickRow nat
  | OpenChange bool
  | Elapse nat
  | SearchSettles "RobloxUser settled"
  | AvatarsSettle "Thumbnail settled"

fun step :: "world \<Rightarrow> event \<Rightarrow> world" where
  "step w (Change text) = useEffect (query (app w)) (w\<lparr>app := (app w)\<lparr>query := text\<rparr>\<rparr>)"
| "step w ClickSearch = w\<lparr>app := onClickSearch (app w)\<rparr>"
| "step w (MouseDown inside) = w\<lparr>app := handleClickOutside inside (app w)\<rparr>"
| "step w (ClickRow i) =
     (case dropdown_state (app w) of
        Populated rows \<Rightarrow>
          if i < length rows
          then useEffect (query (app w)) (w\<lparr>app := handleUserClick (rows ! i) (app w)\<rparr>)
          else w
      | _ \<Rightarrow> w)"
| "step w (OpenChange opened) = w\<lparr>app := onOpenChange opened (app w)\<rparr>"
| "step w (Elapse ms) =
     (case debounceTimeout w of
        None \<Rightarrow> w
      | Some (q, left) \<Rightarrow>
          if left \<le> ms then searchUsers q (w\<lparr>debounceTimeout := None\<rparr>)
          else w\<lparr>debounceTimeout := Some (q, left - ms)\<rparr>)"
| "step w (SearchSettles r) =
     (if searching w = 0 then w else searchUsers_settled r (w\<lparr>searching := searching w - 1\<rparr>))"
| "step w (AvatarsSettle r) =
     (if resolving w = 0 then w else fetchAvatarUrls_settled r (w\<lparr>resolving := resolving w - 1\<rparr>))"

definition run :: "world \<Rightarrow> event list \<Rightarrow> world" where
  "run w es = foldl step w es"

text \<open>The component after its first render: the effect has set its first timeout.\<close>

definition mounted :: world where
  "mounted = \<lparr>app = useState, debounceTimeout = Some ([], 300), searching = 0, resolving = 0,
     sent = []\<rparr>"

text \<open>
  Closing the dialog with the pointer, on its close control or on its backdrop. The
  dialog is rendered at line 181, after the subtree of \<^verbatim>\<open>dropdownRef\<close> (lines 115 to
  179) and into a portal, so the pointer goes down outside that subtree and the listener
  of lines 36 to 44 runs as well as the handler of line 181.
\<close>

definition pointer_close :: "event list" where
  "pointer_close = [MouseDown False, OpenChange False]"

subsection \<open>Sequences of edits, and runs in which searches do not overlap\<close>

text \<open>
  A burst of edits after a first one: each entry is the time since the previous edit and
  the new text of the input. \<open>rapid\<close> holds when every gap is shorter than the 300 ms of
  the timer and every edit changes the text.
\<close>

fun typing :: "(nat \<times> js_string) list \<Rightarrow> event list" where
  "typing [] = []"
| "typing ((gap, text) # rest) = Elapse gap # Change text # typing rest"

fun rapid :: "js_string \<Rightarrow> (nat \<times> js_string) list \<Rightarrow> bool" where
  "rapid current [] = True"
| "rapid current ((gap, text) # rest) = (gap < 300 \<and> text \<noteq> current \<and> rapid text rest)"

text \<open>
  An event starts a search cycle when it lets the timer fire for a text of two code units
  or more. In a run that is \<open>one_at_a_time\<close>, no cycle starts while a search request is
  still in flight.
\<close>

definition starts_cycle :: "world \<Rightarrow> event \<Rightarrow> bool" where
  "starts_cycle w e =
     (case e of
        Elapse ms \<Rightarrow>
          (case debounceTimeout w of
             Some (q, left) \<Rightarrow> left \<le> ms \<and> 2 \<le> length q
           | None \<Rightarrow> False)
      | _ \<Rightarrow> False)"

fun one_at_a_time :: "world \<Rightarrow> event list \<Rightarrow> bool" where
  "one_at_a_time w [] = True"
| "one_at_a_time w (e # es) =
     ((if starts_cycle w e then searching w = 0 else True) \<and> one_at_a_time (step w e) es)"

subsection \<open>The request as the specification words it\<close>

text \<open>
  The specification speaks of the trimmed query. \<open>trim\<close> is \<^verbatim>\<open>String.prototype.trim\<close>
  (white space and line terminators of ECMA-262), and \<open>spec_search_request\<close> the request
  that sentence describes. The source calls neither.
\<close>

definition WhiteSpace :: "code_unit \<Rightarrow> bool" where
  "WhiteSpace c =
     (c \<in> {0x9, 0xA, 0xB, 0xC, 0xD, 0x20, 0xA0, 0x1680, 0x2028, 0x2029, 0x202F, 0x205F,
            0x3000, 0xFEFF}
      \<or> (0x2000 \<le> c \<and> c \<le> 0x200A))"

definition trim :: "js_string \<Rightarrow> js_string" where
  "trim text = rev (dropWhile WhiteSpace (rev (dropWhile WhiteSpace text)))"

definition spec_search_request :: "js_string \<Rightarrow> request option" where
  "spec_search_request text =
     (case encodeURIComponent (trim text) of
        Inl t \<Rightarrow> None
      | Inr keyword \<Rightarrow> Some (search_request keyword))"

subsection \<open>Invariants\<close>

text \<open>
  Two predicates on the world, used below: a pending timer was set for the text the input
  has now, with at most 300 ms left; and an error excludes results, while a search in
  flight is the only one and has no error beside it.
\<close>

definition timer_current :: "world \<Rightarrow> bool" where
  "timer_current w =
     (case debounceTimeout w of None \<Rightarrow> True | Some (q, left) \<Rightarrow> q = query (app w) \<and> left \<le> 300)"

definition error_excludes_results :: "world \<Rightarrow> bool" where
  "error_excludes_results w =
     ((error (app w) \<noteq> None \<longrightarrow> users (app w) = [])
      \<and> (0 < searching w \<longrightarrow> error (app w) = None \<and> searching w = 1))"

subsection \<open>Concrete values\<close>

text \<open>The profile of the specification's example, and the widget showing it for the
  query \<^verbatim>\<open>ro\<close>.\<close>

definition roblox :: RobloxUser where
  "roblox = \<lparr>previousUsernames = [], hasVerifiedBadge = True, id' = 1,
     name = js ''roblox'', displayName = js ''Roblox''\<rparr>"

definition found :: "RobloxUser settled" where
  "found = Response 200 (Json (Some [roblox]))"

definition showing_ro :: world where
  "showing_ro = run mounted [Change (js ''ro''), Elapse 300, SearchSettles found]"

text \<open>A second profile, and a response with both.\<close>

definition builderman :: RobloxUser where
  "builderman = \<lparr>previousUsernames = [], hasVerifiedBadge = True, id' = 156,
     name = js ''builderman'', displayName = js ''Builderman''\<rparr>"

definition found_two :: "RobloxUser settled" where
  "found_two = Response 200 (Json (Some [roblox, builderman]))"

text \<open>
  Two searches are in flight, for \<^verbatim>\<open>ro\<close> and for \<^verbatim>\<open>rob\<close>; one settles, its row
  is clicked and the dialog opens; then the other settles under the open dialog.
\<close>

definition late_under_modal :: world where
  "late_under_modal = run mounted
     [Change (js ''ro''), Elapse 300, Change (js ''rob''), Elapse 300,
      SearchSettles found, ClickRow 0, SearchSettles found]"

text \<open>One resolved thumbnail, for the profile above, and the response carrying it.\<close>

definition headshot :: Thumbnail where
  "headshot = \<lparr>targetId = 1, state = js ''Completed'',
     imageUrl = js ''https://tr.rbxcdn.com/a.png''\<rparr>"

definition portraits :: "Thumbnail settled" where
  "portraits = Response 200 (Json (Some [headshot]))"

lemmas world_defs =
  run_def mounted_def useState_def useEffect_def searchUsers_def searchUsers_settled_def
  search_awaited_def ok_def search_finally_def search_catch_def errorMessage_def
  fetchAvatarUrls_def fetchAvatarUrls_settled_def avatars_awaited_def setAvatarUrls_def
  handleUserClick_def handleClickOutside_def onOpenChange_def onClickSearch_def
  dropdown_state_def

lemmas string_defs =
  js_def uriUnreserved_def leadingSurrogate_def trailingSurrogate_def surrogatePair_def
  utf8_def hexDigit_def escape_def URIError_def

section \<open>Properties\<close>

subsection \<open>Selecting a profile and closing the dialog\<close>

lemma showing_ro_state:
  "app showing_ro = \<lparr>query = js ''ro'', users = [roblox], isLoading = False, error = None,
     showDropdown = True, selectedUser = None, avatarUrls = Map.empty\<rparr>"
  by (simp add: showing_ro_def found_def world_defs string_defs)

lemma showing_ro_dropdown: "dropdown_state (app showing_ro) = Populated [roblox]"
  by (simp add: showing_ro_state dropdown_state_def js_def)

text \<open>
  C8. Clicking a row of the populated dropdown makes that row's profile the selected
  user, empties the query text and hides the dropdown: the flag \<open>showDropdown\<close> is false
  and nothing is rendered below the input. The handler does so for any profile it is
  given.
\<close>

theorem select_profile:
  assumes "dropdown_state (app w) = Populated rows" and "i < length rows"
  shows "selectedUser (app (step w (ClickRow i))) = Some (rows ! i)
       \<and> query (app (step w (ClickRow i))) = []
       \<and> showDropdown (app (step w (ClickRow i))) = False
       \<and> dropdown_state (app (step w (ClickRow i))) = Hidden
       \<and> app (step w (ClickRow i)) = handleUserClick (rows ! i) (app w)
       \<and> selectedUser (handleUserClick user s) = Some user
       \<and> query (handleUserClick user s) = []
       \<and> showDropdown (handleUserClick user s) = False"
  using assms by (simp add: handleUserClick_def useEffect_def dropdown_state_def)

theorem select_profile_witness:
  "dropdown_state (app showing_ro) = Populated [roblox]
   \<and> selectedUser (app (step showing_ro (ClickRow 0))) = Some roblox
   \<and> query (app (step showing_ro (ClickRow 0))) = []
   \<and> showDropdown (app (step showing_ro (ClickRow 0))) = False"
  using select_profile [OF showing_ro_dropdown, of 0] showing_ro_dropdown by simp

text \<open>
  C9, as the code has it. When the dialog asks to close, the handler of line 181 sets the
  selected user to none and nothing else. A close by the pointer, on the close control or
  on the backdrop, also runs the listener of lines 36 to 44, in either order with the
  handler: the selected user is none and the dropdown flag is false afterwards. The query
  text, the results, the error, the loading flag and the avatar cache keep their values,
  and so do the timer, the requests in flight and the log of requests.
\<close>

theorem close_modal_frame:
  "run w pointer_close = w\<lparr>app := (app w)\<lparr>showDropdown := False, selectedUser := None\<rparr>\<rparr>
   \<and> run w [OpenChange False, MouseDown False] = run w pointer_close
   \<and> selectedUser (app (run w pointer_close)) = None
   \<and> showDropdown (app (run w pointer_close)) = False
   \<and> query (app (run w pointer_close)) = query (app w)
   \<and> users (app (run w pointer_close)) = users (app w)
   \<and> error (app (run w pointer_close)) = error (app w)
   \<and> isLoading (app (run w pointer_close)) = isLoading (app w)
   \<and> avatarUrls (app (run w pointer_close)) = avatarUrls (app w)
   \<and> step w (OpenChange False) = w\<lparr>app := (app w)\<lparr>selectedUser := None\<rparr>\<rparr>
   \<and> selectedUser (onOpenChange False s) = None
   \<and> query (onOpenChange False s) = query s
   \<and> users (onOpenChange False s) = users s
   \<and> error (onOpenChange False s) = error s
   \<and> isLoading (onOpenChange False s) = isLoading s
   \<and> showDropdown (onOpenChange False s) = showDropdown s
   \<and> avatarUrls (onOpenChange False s) = avatarUrls s"
  by (simp add: pointer_close_def run_def onOpenChange_def handleClickOutside_def)

lemma late_under_modal_state:
  "app late_under_modal = \<lparr>query = [], users = [roblox], isLoading = False, error = None,
     showDropdown = True, selectedUser = Some roblox, avatarUrls = Map.empty\<rparr>"
  by (simp add: late_under_modal_def found_def world_defs string_defs)

text \<open>
  C9, as the specification words it, fails. A response arrives under the open dialog and
  sets the dropdown flag; the dialog is then closed by the pointer: the selected user is
  none, and the dropdown flag has gone from true to false.
\<close>

theorem pointer_close_clears_dropdown_flag:
  "selectedUser (app late_under_modal) = Some roblox
   \<and> showDropdown (app late_under_modal) = True
   \<and> selectedUser (app (run late_under_modal pointer_close)) = None
   \<and> showDropdown (app (run late_under_modal pointer_close)) = False"
  by (simp add: late_under_modal_state pointer_close_def run_def onOpenChange_def
      handleClickOutside_def)

subsection \<open>A search that succeeds\<close>

lemma searching_ro:
  "run mounted [Change (js ''ro''), Elapse 300] =
     \<lparr>app = \<lparr>query = js ''ro'', users = [], isLoading = True, error = None,
        showDropdown = False, selectedUser = None, avatarUrls = Map.empty\<rparr>,
      debounceTimeout = None, searching = 1, resolving = 0,
      sent = [search_request (js ''ro'')]\<rparr>"
  by (simp add: world_defs string_defs)

lemma showing_ro_world:
  "showing_ro =
     \<lparr>app = \<lparr>query = js ''ro'', users = [roblox], isLoading = False, error = None,
        showDropdown = True, selectedUser = None, avatarUrls = Map.empty\<rparr>,
      debounceTimeout = None, searching = 0, resolving = 1,
      sent = [search_request (js ''ro''), AvatarBatch [1]]\<rparr>"
  by (simp add: showing_ro_def found_def world_defs string_defs roblox_def)

lemma join_first_rest:
  "xs \<noteq> [] \<Longrightarrow> join sep xs = hd xs @ concat (map (\<lambda>y. sep @ y) (tl xs))"
  by (induction sep xs rule: join.induct) simp_all

text \<open>
  C6, as the code has it. When a search in flight settles with a 2xx response whose
  \<^verbatim>\<open>data\<close> holds the profiles \<open>ps\<close>, and \<open>ps\<close> is not empty: the results are \<open>ps\<close>,
  in the order of the response; the dropdown flag is true and the loading flag false;
  exactly one request is added to the log, the avatar request for the ids of \<open>ps\<close> in
  that order, and its URL holds, after \<^verbatim>\<open>userIds=\<close>, the numeral of the first id and
  then a comma and the numeral of each further id. What is rendered depends on the state
  the response meets: the rows of \<open>ps\<close> when the text is not empty and no error is set,
  nothing when the text is empty, the error when one is set. When the \<^verbatim>\<open>data\<close> field
  is absent, the results are empty and no request is sent.
\<close>

theorem search_success_populates:
  assumes "0 < searching w" and "ok status"
  shows "(ps \<noteq> [] \<longrightarrow>
            users (app (step w (SearchSettles (Response status (Json (Some ps)))))) = ps
          \<and> showDropdown (app (step w (SearchSettles (Response status (Json (Some ps))))))
          \<and> \<not> isLoading (app (step w (SearchSettles (Response status (Json (Some ps))))))
          \<and> sent (step w (SearchSettles (Response status (Json (Some ps)))))
              = sent w @ [AvatarBatch (map id' ps)]
          \<and> avatar_url toString (map id' ps)
              = js ''https://thumbnails.roblox.com/v1/users/avatar-headshot?userIds=''
                @ toString (id' (hd ps))
                @ concat (map (\<lambda>p. js '','' @ toString (id' p)) (tl ps))
                @ js ''&size=150x150&format=Png''
          \<and> resolving (step w (SearchSettles (Response status (Json (Some ps)))))
              = Suc (resolving w)
          \<and> (query (app w) \<noteq> [] \<and> error (app w) = None \<longrightarrow>
               dropdown_state (app (step w (SearchSettles (Response status (Json (Some ps))))))
                 = Populated ps)
          \<and> (query (app w) = [] \<longrightarrow>
               dropdown_state (app (step w (SearchSettles (Response status (Json (Some ps))))))
                 = Hidden)
          \<and> (query (app w) \<noteq> [] \<and> error (app w) = Some message \<and> message \<noteq> [] \<longrightarrow>
               dropdown_state (app (step w (SearchSettles (Response status (Json (Some ps))))))
                 = Failed message))
       \<and> users (app (step w (SearchSettles (Response status (Json None))))) = []
       \<and> sent (step w (SearchSettles (Response status (Json None)))) = sent w
       \<and> resolving (step w (SearchSettles (Response status (Json None)))) = resolving w"
proof -
  have "avatar_url toString (map id' ps)
      = js ''https://thumbnails.roblox.com/v1/users/avatar-headshot?userIds=''
        @ toString (id' (hd ps))
        @ concat (map (\<lambda>p. js '','' @ toString (id' p)) (tl ps))
        @ js ''&size=150x150&format=Png''"
    if "ps \<noteq> []"
    using that by (simp add: avatar_url_def join_first_rest hd_map map_tl comp_def)
  with assms show ?thesis
    by (simp add: searchUsers_settled_def search_awaited_def search_finally_def
        fetchAvatarUrls_def dropdown_state_def)
qed

theorem search_success_populates_witness:
  "0 < searching (run mounted [Change (js ''ro''), Elapse 300]) \<and> ok 200
   \<and> [roblox, builderman] \<noteq> []
   \<and> users (app (step (run mounted [Change (js ''ro''), Elapse 300]) (SearchSettles found_two)))
       = [roblox, builderman]
   \<and> sent (step (run mounted [Change (js ''ro''), Elapse 300]) (SearchSettles found_two))
       = [search_request (js ''ro''), AvatarBatch [1, 156]]
   \<and> avatar_url (\<lambda>i. digits (nat i)) [1, 156]
       = js ''https://thumbnails.roblox.com/v1/users/avatar-headshot?userIds=1,156&size=150x150&format=Png''
   \<and> dropdown_state (app (step (run mounted [Change (js ''ro''), Elapse 300])
        (SearchSettles found_two))) = Populated [roblox, builderman]"
proof -
  have flying: "0 < searching (run mounted [Change (js ''ro''), Elapse 300])"
    by (simp add: searching_ro)
  have good: "ok 200" by (simp add: ok_def)
  have typed: "query (app (run mounted [Change (js ''ro''), Elapse 300])) \<noteq> []"
    "error (app (run mounted [Change (js ''ro''), Elapse 300])) = None"
    "sent (run mounted [Change (js ''ro''), Elapse 300]) = [search_request (js ''ro'')]"
    unfolding searching_ro by (simp_all add: js_def)
  have ids: "map id' [roblox, builderman] = [1, 156]"
    by (simp add: roblox_def builderman_def)
  have numerals: "digits (nat 1) = js ''1''" "digits (nat 156) = js ''156''"
    by (simp_all add: digits.simps js_def)
  note fact = search_success_populates [OF flying good,
      of "[roblox, builderman]" "\<lambda>i. digits (nat i)"]
  from fact typed ids
  have state: "users (app (step (run mounted [Change (js ''ro''), Elapse 300])
        (SearchSettles found_two))) = [roblox, builderman]"
    "sent (step (run mounted [Change (js ''ro''), Elapse 300]) (SearchSettles found_two))
       = [search_request (js ''ro''), AvatarBatch [1, 156]]"
    "dropdown_state (app (step (run mounted [Change (js ''ro''), Elapse 300])
        (SearchSettles found_two))) = Populated [roblox, builderman]"
    by (simp_all add: found_two_def)
  from fact ids numerals
  have url: "avatar_url (\<lambda>i. digits (nat i)) [1, 156]
       = js ''https://thumbnails.roblox.com/v1/users/avatar-headshot?userIds=1,156&size=150x150&format=Png''"
    by (simp add: roblox_def builderman_def js_def)
  from flying good state url show ?thesis by simp
qed

text \<open>
  C6, as the specification words it, fails. The text \<^verbatim>\<open>ro\<close> is searched for and the
  input is emptied while the request is in flight: the response with one profile sets the
  results and the dropdown flag, and nothing is rendered. And with two searches in
  flight, the first answered with status 500 and the second with one profile, the
  dropdown renders the error, not the row.
\<close>

theorem success_not_rendered_populated:
  "users (app (run mounted [Change (js ''ro''), Elapse 300, Change [], SearchSettles found]))
     = [roblox]
   \<and> showDropdown (app (run mounted
        [Change (js ''ro''), Elapse 300, Change [], SearchSettles found])) = True
   \<and> dropdown_state (app (run mounted
        [Change (js ''ro''), Elapse 300, Change [], SearchSettles found])) = Hidden
   \<and> users (app (run mounted
        [Change (js ''ro''), Elapse 300, Change (js ''rob''), Elapse 300,
         SearchSettles (Response 500 (Json None)), SearchSettles found])) = [roblox]
   \<and> dropdown_state (app (run mounted
        [Change (js ''ro''), Elapse 300, Change (js ''rob''), Elapse 300,
         SearchSettles (Response 500 (Json None)), SearchSettles found]))
     = Failed (js ''HTTP error! status: 500'')"
  by (simp add: found_def world_defs string_defs digits.simps)

subsection \<open>A search that fails\<close>

lemma search_failure_state:
  assumes "search_awaited r = Inl t"
  shows "app (searchUsers_settled r w) =
    (app w)\<lparr>error := Some (errorMessage t), users := [], isLoading := False\<rparr>"
  using assms by (simp add: searchUsers_settled_def search_catch_def search_finally_def)

text \<open>
  C1. The first search of a freshly mounted widget, for the text \<^verbatim>\<open>ro\<close>, answered
  with status 500: the error message is set and the results are empty, but the dropdown
  flag is still false, since \<^verbatim>\<open>setShowDropdown(true)\<close> of line 97 stands in the
  \<^verbatim>\<open>try\<close> block after the \<^verbatim>\<open>throw\<close>; nothing is rendered and the message is not
  presented.
\<close>

theorem failed_search_keeps_dropdown_closed:
  "error (app (run mounted
      [Change (js ''ro''), Elapse 300, SearchSettles (Response 500 (Json None))]))
     = Some (js ''HTTP error! status: 500'')
   \<and> users (app (run mounted
      [Change (js ''ro''), Elapse 300, SearchSettles (Response 500 (Json None))])) = []
   \<and> showDropdown (app (run mounted
      [Change (js ''ro''), Elapse 300, SearchSettles (Response 500 (Json None))])) = False
   \<and> dropdown_state (app (run mounted
      [Change (js ''ro''), Elapse 300, SearchSettles (Response 500 (Json None))])) = Hidden"
  by (simp add: world_defs string_defs digits.simps)

subsection \<open>Texts shorter than two code units\<close>

text \<open>
  C2, as the code has it. For a text shorter than two code units \<^verbatim>\<open>searchUsers\<close>
  empties the results, clears the error and sends nothing. It is the callback of the
  timer: after the edit the results and the error stay as they were for the 300 ms of the
  debounce, and are cleared when the timer fires.
\<close>

theorem short_query_cleared_when_timer_fires:
  assumes "length text < 2"
  shows "users (app (searchUsers text w)) = []
       \<and> error (app (searchUsers text w)) = None
       \<and> sent (searchUsers text w) = sent w
       \<and> searching (searchUsers text w) = searching w
       \<and> (text \<noteq> query (app w) \<longrightarrow>
            (\<forall>ms<300. users (app (run w [Change text, Elapse ms])) = users (app w)
                     \<and> error (app (run w [Change text, Elapse ms])) = error (app w)
                     \<and> sent (run w [Change text, Elapse ms]) = sent w)
          \<and> (\<forall>ms\<ge>300. users (app (run w [Change text, Elapse ms])) = []
                      \<and> error (app (run w [Change text, Elapse ms])) = None
                      \<and> sent (run w [Change text, Elapse ms]) = sent w))"
  using assms by (simp add: searchUsers_def run_def useEffect_def)

theorem short_query_cleared_when_timer_fires_witness:
  "length (js ''r'') < 2 \<and> js ''r'' \<noteq> query (app showing_ro)
   \<and> users (app (run showing_ro [Change (js ''r''), Elapse 299])) = [roblox]
   \<and> users (app (run showing_ro [Change (js ''r''), Elapse 300])) = []
   \<and> sent (run showing_ro [Change (js ''r''), Elapse 300]) = sent showing_ro"
proof -
  have short: "length (js ''r'') < 2" by (simp add: js_def)
  have changed: "js ''r'' \<noteq> query (app showing_ro)" by (simp add: showing_ro_state js_def)
  have before: "users (app showing_ro) = [roblox]" by (simp add: showing_ro_state)
  from short_query_cleared_when_timer_fires [OF short, of showing_ro] changed before
  show ?thesis using short by simp
qed

text \<open>
  C2, as the specification words it, fails: the widget shows the result for \<^verbatim>\<open>ro\<close>, the text
  becomes \<^verbatim>\<open>r\<close>; right after the edit, and 299 ms later, the result is still there.
\<close>

theorem short_query_not_cleared_at_once:
  "length (js ''r'') < 2
   \<and> users (app (step showing_ro (Change (js ''r'')))) = [roblox]
   \<and> users (app (run showing_ro [Change (js ''r''), Elapse 299])) = [roblox]"
  by (simp add: showing_ro_def found_def world_defs string_defs)

subsection \<open>The avatar cache\<close>

lemma newUrls_snoc: "newUrls (items @ [x]) = (newUrls items)(targetId x \<mapsto> imageUrl x)"
  by (simp add: newUrls_def)

lemma newUrls_absent: "k \<notin> targetId ` set items \<Longrightarrow> newUrls items k = None"
proof (induction items rule: rev_induct)
  case Nil
  then show ?case by (simp add: newUrls_def)
next
  case (snoc x xs)
  then show ?case by (simp add: newUrls_snoc)
qed

lemma newUrls_present:
  "k \<in> targetId ` set items \<Longrightarrow>
   newUrls items k = Some (imageUrl (last (filter (\<lambda>i. targetId i = k) items)))"
proof (induction items rule: rev_induct)
  case Nil
  then show ?case by simp
next
  case (snoc x xs)
  show ?case
  proof (cases "targetId x = k")
    case True
    then show ?thesis by (simp add: newUrls_snoc)
  next
    case False
    with snoc.prems have "k \<in> targetId ` set xs" by auto
    with snoc.IH False show ?thesis by (auto simp add: newUrls_snoc filter_empty_conv)
  qed
qed

lemma step_avatarUrls_dom: "dom (avatarUrls (app w)) \<subseteq> dom (avatarUrls (app (step w e)))"
proof (cases e)
  case (Elapse ms)
  then show ?thesis
    by (auto simp add: searchUsers_def search_catch_def search_finally_def Let_def
        split: option.splits sum.splits prod.splits)
next
  case (SearchSettles r)
  then show ?thesis
    by (auto simp add: searchUsers_settled_def search_catch_def search_finally_def
        fetchAvatarUrls_def Let_def split: option.splits sum.splits)
next
  case (AvatarsSettle r)
  then show ?thesis
    by (auto simp add: fetchAvatarUrls_settled_def setAvatarUrls_def split: sum.splits)
next
  case (ClickRow i)
  then show ?thesis
    by (auto simp add: handleUserClick_def useEffect_def split: dropdown.splits)
qed (auto simp add: useEffect_def onClickSearch_def handleClickOutside_def onOpenChange_def)

lemma run_avatarUrls_dom: "dom (avatarUrls (app w)) \<subseteq> dom (avatarUrls (app (run w es)))"
proof (induction es arbitrary: w)
  case Nil
  then show ?case by (simp add: run_def)
next
  case (Cons e es)
  have "dom (avatarUrls (app w)) \<subseteq> dom (avatarUrls (app (step w e)))"
    by (rule step_avatarUrls_dom)
  also have "\<dots> \<subseteq> dom (avatarUrls (app (run (step w e) es)))"
    by (rule Cons.IH)
  finally show ?case by (simp add: run_def)
qed

lemma step_avatarUrls_other:
  "(\<forall>r. e \<noteq> AvatarsSettle r) \<Longrightarrow> avatarUrls (app (step w e)) = avatarUrls (app w)"
proof (cases e)
  case (Elapse ms)
  then show ?thesis
    by (auto simp add: searchUsers_def search_catch_def search_finally_def Let_def
        split: option.splits sum.splits prod.splits)
next
  case (SearchSettles r)
  then show ?thesis
    by (auto simp add: searchUsers_settled_def search_catch_def search_finally_def
        fetchAvatarUrls_def Let_def split: option.splits sum.splits)
next
  case (ClickRow i)
  then show ?thesis
    by (auto simp add: handleUserClick_def useEffect_def split: dropdown.splits)
qed (auto simp add: useEffect_def onClickSearch_def handleClickOutside_def onOpenChange_def)

text \<open>
  C5. An avatar fetch that succeeds with the entries \<open>items\<close> leaves the cache with,
  for every id among the \<^verbatim>\<open>targetId\<close>s, the \<^verbatim>\<open>imageUrl\<close> of the last entry for that
  id (whatever the id mapped to before), and for every other id what it mapped to
  before. An avatar fetch that fails leaves the whole state as it was. No event but the
  settling of an avatar fetch touches the cache, and along any sequence of events an id
  that is in the cache stays in it.
\<close>

theorem avatar_cache_additive:
  "(avatars_awaited r = Inr items \<longrightarrow>
      (\<forall>k. avatarUrls (app (fetchAvatarUrls_settled r w)) k =
           (if k \<in> targetId ` set items
            then Some (imageUrl (last (filter (\<lambda>i. targetId i = k) items)))
            else avatarUrls (app w) k)))
   \<and> (avatars_awaited r = Inl t \<longrightarrow> fetchAvatarUrls_settled r w = w)
   \<and> ((\<forall>r'. e \<noteq> AvatarsSettle r') \<longrightarrow> avatarUrls (app (step w e)) = avatarUrls (app w))
   \<and> dom (avatarUrls (app w)) \<subseteq> dom (avatarUrls (app (run w es)))"
proof (intro conjI impI allI)
  fix k
  assume "avatars_awaited r = Inr items"
  then have "avatarUrls (app (fetchAvatarUrls_settled r w)) = avatarUrls (app w) ++ newUrls items"
    by (simp add: fetchAvatarUrls_settled_def setAvatarUrls_def)
  then show "avatarUrls (app (fetchAvatarUrls_settled r w)) k =
      (if k \<in> targetId ` set items
       then Some (imageUrl (last (filter (\<lambda>i. targetId i = k) items)))
       else avatarUrls (app w) k)"
    by (simp add: map_add_def newUrls_absent newUrls_present)
next
  assume "avatars_awaited r = Inl t"
  then show "fetchAvatarUrls_settled r w = w" by (simp add: fetchAvatarUrls_settled_def)
next
  assume "\<forall>r'. e \<noteq> AvatarsSettle r'"
  then show "avatarUrls (app (step w e)) = avatarUrls (app w)" by (rule step_avatarUrls_other)
next
  show "dom (avatarUrls (app w)) \<subseteq> dom (avatarUrls (app (run w es)))"
    by (rule run_avatarUrls_dom)
qed

theorem avatar_cache_additive_witness:
  "avatars_awaited portraits = Inr [headshot]
   \<and> avatarUrls (app (fetchAvatarUrls_settled portraits showing_ro)) 1 = Some (imageUrl headshot)
   \<and> avatarUrls (app (fetchAvatarUrls_settled portraits showing_ro)) 2 = None
   \<and> avatars_awaited (Response 500 (Json None)) = Inl (Error (js ''Failed to fetch avatars''))
   \<and> fetchAvatarUrls_settled (Response 500 (Json None)) (step showing_ro (AvatarsSettle portraits))
        = step showing_ro (AvatarsSettle portraits)
   \<and> avatarUrls (app (step (step showing_ro (AvatarsSettle portraits)) ClickSearch))
        = avatarUrls (app (step showing_ro (AvatarsSettle portraits)))
   \<and> dom (avatarUrls (app (step showing_ro (AvatarsSettle portraits)))) = {1}
   \<and> 1 \<in> dom (avatarUrls (app (run (step showing_ro (AvatarsSettle portraits))
                [Change (js ''rob''), Elapse 300, SearchSettles (Rejected NonError)])))"
proof -
  have good: "avatars_awaited portraits = Inr [headshot]"
    by (simp add: portraits_def avatars_awaited_def ok_def)
  have bad: "avatars_awaited (Response 500 (Json None)) = Inl (Error (js ''Failed to fetch avatars''))"
    by (simp add: avatars_awaited_def ok_def)
  have other: "\<forall>r'. ClickSearch \<noteq> AvatarsSettle r'" by simp
  have before: "avatarUrls (app showing_ro) 2 = None" by (simp add: showing_ro_state)
  note merge = avatar_cache_additive [of portraits "[headshot]" showing_ro,
      THEN conjunct1, rule_format, OF good]
  have one: "avatarUrls (app (fetchAvatarUrls_settled portraits showing_ro)) 1
      = Some (imageUrl headshot)"
    using merge [of 1] by (simp add: headshot_def)
  have two: "avatarUrls (app (fetchAvatarUrls_settled portraits showing_ro)) 2 = None"
    using merge [of 2] before by (simp add: headshot_def)
  have cached: "dom (avatarUrls (app (step showing_ro (AvatarsSettle portraits)))) = {1}"
    by (simp add: showing_ro_world fetchAvatarUrls_settled_def good setAvatarUrls_def
        newUrls_def headshot_def)
  have kept: "fetchAvatarUrls_settled (Response 500 (Json None))
        (step showing_ro (AvatarsSettle portraits)) = step showing_ro (AvatarsSettle portraits)"
    using avatar_cache_additive [of "Response 500 (Json None)" _ _
        "Error (js ''Failed to fetch avatars'')"] bad
    by blast
  have same: "avatarUrls (app (step (step showing_ro (AvatarsSettle portraits)) ClickSearch))
        = avatarUrls (app (step showing_ro (AvatarsSettle portraits)))"
    using avatar_cache_additive [of _ _ _ _ ClickSearch] other by blast
  have later: "1 \<in> dom (avatarUrls (app (run (step showing_ro (AvatarsSettle portraits))
                [Change (js ''rob''), Elapse 300, SearchSettles (Rejected NonError)])))"
    using avatar_cache_additive [of _ _ "step showing_ro (AvatarsSettle portraits)" _ _
        "[Change (js ''rob''), Elapse 300, SearchSettles (Rejected NonError)]"] cached
    by blast
  from good one two bad kept same cached later show ?thesis by blast
qed

subsection \<open>The debounce\<close>

lemma run_Cons: "run w (e # es) = run (step w e) es"
  by (simp add: run_def)

lemma run_append: "run w (xs @ ys) = run (run w xs) ys"
  by (simp add: run_def)

lemma typing_keeps_timer:
  assumes "debounceTimeout w = Some (query (app w), 300)" and "rapid (query (app w)) rest"
  shows "debounceTimeout (run w (typing rest)) = Some (last (query (app w) # map snd rest), 300)
       \<and> query (app (run w (typing rest))) = last (query (app w) # map snd rest)
       \<and> sent (run w (typing rest)) = sent w
       \<and> searching (run w (typing rest)) = searching w"
  using assms
proof (induction rest arbitrary: w)
  case Nil
  then show ?case by (simp add: run_def)
next
  case (Cons edit rest)
  obtain gap new where edit: "edit = (gap, new)" by (cases edit)
  define w2 where "w2 = step (step w (Elapse gap)) (Change new)"
  from Cons.prems edit have gap: "gap < 300" and changed: "new \<noteq> query (app w)"
    and rest: "rapid new rest" by simp_all
  from Cons.prems(1) gap changed
  have w2: "debounceTimeout w2 = Some (new, 300)" "query (app w2) = new"
    "sent w2 = sent w" "searching w2 = searching w"
    by (simp_all add: w2_def useEffect_def)
  from w2 rest have "debounceTimeout w2 = Some (query (app w2), 300)" "rapid (query (app w2)) rest"
    by simp_all
  from Cons.IH [OF this] w2 edit show ?case
    by (simp add: run_Cons w2_def)
qed

text \<open>
  C3, as the code has it. A burst of edits, each changing the text and each less than
  300 ms after the one before, then at least 300 ms without an edit: every edit replaces
  the pending timer, so nothing is sent during the burst, and when the last timer fires
  at most one search request is sent. It is sent when the final text has two code units
  or more and can be encoded, and its keyword is the encoding of the final text; for a
  shorter final text nothing is sent.
\<close>

theorem debounce_sends_final_query:
  assumes "first \<noteq> query (app w)" and "rapid first rest" and "300 \<le> quiet"
  shows "sent (run w (Change first # typing rest @ [Elapse quiet])) =
           sent w @ (if length (last (first # map snd rest)) < 2 then []
                     else case encodeURIComponent (last (first # map snd rest)) of
                            Inl t \<Rightarrow> []
                          | Inr keyword \<Rightarrow> [search_request keyword])
       \<and> debounceTimeout (run w (Change first # typing rest))
           = Some (last (first # map snd rest), 300)
       \<and> sent (run w (Change first # typing rest)) = sent w"
proof -
  define w1 where "w1 = step w (Change first)"
  define final where "final = last (first # map snd rest)"
  from assms(1) have w1: "debounceTimeout w1 = Some (query (app w1), 300)"
    "query (app w1) = first" "sent w1 = sent w"
    by (simp_all add: w1_def useEffect_def)
  with assms(2) have "rapid (query (app w1)) rest" by simp
  from typing_keeps_timer [OF w1(1) this] w1
  have typed: "debounceTimeout (run w1 (typing rest)) = Some (final, 300)"
    "sent (run w1 (typing rest)) = sent w"
    by (simp_all add: final_def)
  have "run w (Change first # typing rest @ [Elapse quiet])
      = step (run w1 (typing rest)) (Elapse quiet)"
    by (simp add: run_Cons run_append w1_def run_def)
  with typed assms(3)
  have "sent (run w (Change first # typing rest @ [Elapse quiet])) =
           sent w @ (if length final < 2 then []
                     else case encodeURIComponent final of
                            Inl t \<Rightarrow> []
                          | Inr keyword \<Rightarrow> [search_request keyword])"
    by (simp add: searchUsers_def search_catch_def search_finally_def Let_def split: sum.splits)
  moreover have "run w (Change first # typing rest) = run w1 (typing rest)"
    by (simp add: run_Cons w1_def)
  ultimately show ?thesis using typed by (simp add: final_def)
qed

theorem debounce_sends_final_query_witness:
  "js ''r'' \<noteq> query (app mounted)
   \<and> rapid (js ''r'') [(120, js ''ro''), (90, js ''rob'')]
   \<and> sent (run mounted (Change (js ''r'') # typing [(120, js ''ro''), (90, js ''rob'')] @ [Elapse 300]))
       = [search_request (js ''rob'')]"
proof -
  have changed: "js ''r'' \<noteq> query (app mounted)" by (simp add: mounted_def useState_def js_def)
  have quick: "rapid (js ''r'') [(120, js ''ro''), (90, js ''rob'')]" by (simp add: js_def)
  have quiet: "(300::nat) \<le> 300" by simp
  have enc: "encodeURIComponent (js ''rob'') = Inr (js ''rob'')" by (simp add: string_defs)
  have none: "sent mounted = []" by (simp add: mounted_def)
  from debounce_sends_final_query [OF changed quick quiet] enc none
  have "sent (run mounted (Change (js ''r'') # typing [(120, js ''ro''), (90, js ''rob'')] @ [Elapse 300]))
       = [search_request (js ''rob'')]"
    by (simp add: js_def)
  with changed quick show ?thesis by blast
qed

text \<open>
  C3, as the specification words it, fails: the text \<^verbatim>\<open>ro\<close> is typed and 100 ms later cut
  to \<^verbatim>\<open>r\<close>; after the quiet period no request has been sent, not exactly one.
\<close>

theorem debounce_short_final_sends_nothing:
  "rapid (js ''ro'') [(100, js ''r'')]
   \<and> sent (run mounted (Change (js ''ro'') # typing [(100, js ''r'')] @ [Elapse 300])) = []"
  by (simp add: world_defs string_defs)

subsection \<open>The search request\<close>

lemma hexDigit_unreserved:
  assumes "d < 16" shows "uriUnreserved (hexDigit d)"
proof -
  from assms have "d = 0 \<or> d = 1 \<or> d = 2 \<or> d = 3 \<or> d = 4 \<or> d = 5 \<or> d = 6 \<or> d = 7
    \<or> d = 8 \<or> d = 9 \<or> d = 10 \<or> d = 11 \<or> d = 12 \<or> d = 13 \<or> d = 14 \<or> d = 15"
    by arith
  then show ?thesis
    by (elim disjE) (simp_all add: hexDigit_def uriUnreserved_def)
qed

lemma escape_safe:
  assumes "\<forall>b\<in>set octets. b < 256"
  shows "\<forall>c\<in>set (escape octets). uriUnreserved c \<or> c = 0x25"
proof -
  have "uriUnreserved (hexDigit (b div 16))" "uriUnreserved (hexDigit (b mod 16))"
    if "b \<in> set octets" for b
  proof -
    from that assms have "b div 16 < 16" "b mod 16 < 16" by auto
    then show "uriUnreserved (hexDigit (b div 16))" "uriUnreserved (hexDigit (b mod 16))"
      by (simp_all add: hexDigit_unreserved)
  qed
  then show ?thesis by (auto simp add: escape_def)
qed


lemma continuation_octet: "(x::nat) mod 64 < 128"
proof -
  have "x mod 64 < 64" by simp
  then show ?thesis by simp
qed

lemma utf8_octets: "cp < 0x110000 \<Longrightarrow> \<forall>b\<in>set (utf8 cp). b < 256"
  by (simp add: utf8_def continuation_octet div_less_iff_less_mult)

lemma surrogatePair_bound:
  assumes "leadingSurrogate c" and "trailingSurrogate d"
  shows "surrogatePair c d < 0x110000"
proof -
  from assms have "unat c \<le> 0xDBFF" "unat d \<le> 0xDFFF"
    by (simp_all add: leadingSurrogate_def trailingSurrogate_def word_le_nat_alt)
  then show ?thesis by (simp add: surrogatePair_def)
qed

lemma code_unit_bound: "unat (c :: code_unit) < 0x110000"
proof -
  have "unat c < 2 ^ 16" using unsigned_less [of c] by simp
  then show ?thesis by simp
qed

lemma enc_kept:
  "uriUnreserved c \<Longrightarrow> encodeURIComponent (c # cs) = Inr keyword \<Longrightarrow>
   \<exists>r. encodeURIComponent cs = Inr r \<and> keyword = c # r"
  by (simp split: sum.splits)

lemma enc_pair:
  "\<not> uriUnreserved c \<Longrightarrow> leadingSurrogate c \<Longrightarrow> encodeURIComponent (c # cs) = Inr keyword \<Longrightarrow>
   \<exists>d ds r. \<not> trailingSurrogate c \<and> cs = d # ds \<and> trailingSurrogate d
      \<and> encodeURIComponent ds = Inr r \<and> keyword = escape (utf8 (surrogatePair c d)) @ r"
  by (cases cs) (simp_all del: encodeURIComponent.simps add: encodeURIComponent.simps(2) [of c] split: sum.splits if_splits)

lemma enc_single:
  "\<not> uriUnreserved c \<Longrightarrow> \<not> leadingSurrogate c \<Longrightarrow> encodeURIComponent (c # cs) = Inr keyword \<Longrightarrow>
   \<exists>r. \<not> trailingSurrogate c \<and> encodeURIComponent cs = Inr r \<and> keyword = escape (utf8 (unat c)) @ r"
  by (simp split: sum.splits if_splits)


lemma encodeURIComponent_safe:
  "encodeURIComponent s = Inr keyword \<Longrightarrow> \<forall>c\<in>set keyword. uriUnreserved c \<or> c = 0x25"
proof (induction s arbitrary: keyword rule: encodeURIComponent.induct)
  case 1
  then show ?case by simp
next
  case (2 c cs)
  consider (kept) "uriUnreserved c"
    | (pair) "\<not> uriUnreserved c" "leadingSurrogate c"
    | (single) "\<not> uriUnreserved c" "\<not> leadingSurrogate c"
    by blast
  then show ?case
  proof cases
    case kept
    from enc_kept [OF kept "2.prems"] obtain r
      where r: "encodeURIComponent cs = Inr r" "keyword = c # r" by blast
    from "2.IH"(1) [OF kept r(1)] kept r(2) show ?thesis by simp
  next
    case pair
    from enc_pair [OF pair "2.prems"] obtain d ds r
      where parts: "\<not> trailingSurrogate c" "cs = d # ds" "trailingSurrogate d"
        "encodeURIComponent ds = Inr r" "keyword = escape (utf8 (surrogatePair c d)) @ r"
      by blast
    from "2.IH"(2) [OF pair(1) parts(1) pair(2) parts(2) parts(3) parts(4)]
    have tail: "\<forall>x\<in>set r. uriUnreserved x \<or> x = 0x25" .
    from pair(2) parts(3)
    have "\<forall>x\<in>set (escape (utf8 (surrogatePair c d))). uriUnreserved x \<or> x = 0x25"
      by (intro escape_safe utf8_octets surrogatePair_bound)
    with tail parts(5) show ?thesis by (simp add: ball_Un)
  next
    case single
    from enc_single [OF single "2.prems"] obtain r
      where parts: "\<not> trailingSurrogate c" "encodeURIComponent cs = Inr r"
        "keyword = escape (utf8 (unat c)) @ r"
      by blast
    from "2.IH"(3) [OF single(1) parts(1) single(2) parts(2)]
    have tail: "\<forall>x\<in>set r. uriUnreserved x \<or> x = 0x25" .
    have "\<forall>x\<in>set (escape (utf8 (unat c))). uriUnreserved x \<or> x = 0x25"
      by (intro escape_safe utf8_octets code_unit_bound)
    with tail parts(3) show ?thesis by (simp add: ball_Un)
  qed
qed

lemma encodeURIComponent_unreserved:
  "\<forall>c\<in>set s. uriUnreserved c \<Longrightarrow> encodeURIComponent s = Inr s"
  by (induction s) simp_all

text \<open>
  C4, as the code has it. A search is dispatched for a text of two code units or more
  that \<^verbatim>\<open>encodeURIComponent\<close> accepts. The one request it sends is the GET of
  \<^verbatim>\<open>/api/v1/users/search\<close> with the encoding of the text as it stands in the
  input as keyword, the limit 10 and the header \<^verbatim>\<open>Accept: application/json\<close>. The
  keyword holds unreserved characters and percent signs only, and is the text itself when
  the text has unreserved characters only. The text is not trimmed.
\<close>

theorem search_request_carries_query:
  assumes "2 \<le> length q" and "encodeURIComponent q = Inr keyword"
  shows "sent (searchUsers q w) =
           sent w @ [GET (js ''/api/v1/users/search?keyword='' @ keyword @ js ''&limit=10'')
                       [(js ''Accept'', js ''application/json'')]]
       \<and> searching (searchUsers q w) = Suc (searching w)
       \<and> (\<forall>c\<in>set keyword. uriUnreserved c \<or> c = 0x25)
       \<and> ((\<forall>c\<in>set q. uriUnreserved c) \<longrightarrow> keyword = q)
       \<and> (debounceTimeout w = Some (q, left) \<and> left \<le> ms \<longrightarrow>
            sent (step w (Elapse ms)) = sent w @ [search_request keyword])"
proof -
  from assms have "sent (searchUsers q w) = sent w @ [search_request keyword]"
    "searching (searchUsers q w) = Suc (searching w)"
    by (simp_all add: searchUsers_def)
  moreover from assms(2) have "\<forall>c\<in>set keyword. uriUnreserved c \<or> c = 0x25"
    by (rule encodeURIComponent_safe)
  moreover have "keyword = q" if "\<forall>c\<in>set q. uriUnreserved c"
    using encodeURIComponent_unreserved [OF that] assms(2) by simp
  moreover from assms
  have "sent (step w (Elapse ms)) = sent w @ [search_request keyword]"
    if "debounceTimeout w = Some (q, left) \<and> left \<le> ms"
    using that by (simp add: searchUsers_def)
  ultimately show ?thesis by (simp add: search_request_def)
qed

theorem search_request_carries_query_witness:
  "2 \<le> length (js '' ab'') \<and> encodeURIComponent (js '' ab'') = Inr (js ''%20ab'')
   \<and> sent (searchUsers (js '' ab'') mounted) =
        [GET (js ''/api/v1/users/search?keyword=%20ab&limit=10'')
           [(js ''Accept'', js ''application/json'')]]
   \<and> debounceTimeout (step mounted (Change (js '' ab''))) = Some (js '' ab'', 300)
   \<and> sent (step (step mounted (Change (js '' ab''))) (Elapse 300)) = [search_request (js ''%20ab'')]"
proof -
  have long: "2 \<le> length (js '' ab'')" by (simp add: js_def)
  have enc: "encodeURIComponent (js '' ab'') = Inr (js ''%20ab'')" by (simp add: string_defs)
  have timer: "debounceTimeout (step mounted (Change (js '' ab''))) = Some (js '' ab'', 300)"
    "sent (step mounted (Change (js '' ab''))) = []"
    by (simp_all add: mounted_def useState_def useEffect_def js_def)
  have none: "sent mounted = []" by (simp add: mounted_def)
  note fact = search_request_carries_query [OF long enc]
  from fact [of mounted] none
  have one: "sent (searchUsers (js '' ab'') mounted) =
        [GET (js ''/api/v1/users/search?keyword=%20ab&limit=10'')
           [(js ''Accept'', js ''application/json'')]]"
    by (simp add: js_def)
  from fact [of "step mounted (Change (js '' ab''))" 300 300] timer
  have two: "sent (step (step mounted (Change (js '' ab''))) (Elapse 300)) = [search_request (js ''%20ab'')]"
    by simp
  from long enc one timer(1) two show ?thesis by blast
qed

text \<open>
  C4, as the specification words it, fails: for the text \<^verbatim>\<open> ab\<close>, with a leading space,
  the request carries \<^verbatim>\<open>keyword=%20ab\<close>, where the trimmed text would give
  \<^verbatim>\<open>keyword=ab\<close>.
\<close>

theorem search_request_not_trimmed:
  "sent (run mounted [Change (js '' ab''), Elapse 300]) = [search_request (js ''%20ab'')]
   \<and> spec_search_request (js '' ab'') = Some (search_request (js ''ab''))
   \<and> search_request (js ''%20ab'') \<noteq> search_request (js ''ab'')"
  by (simp add: world_defs string_defs spec_search_request_def trim_def WhiteSpace_def
      search_request_def)

subsection \<open>What holds in every reachable state\<close>

lemma searchUsers_frame:
  "query (app (searchUsers q w)) = query (app w)"
  "debounceTimeout (searchUsers q w) = debounceTimeout w"
  by (simp_all add: searchUsers_def search_catch_def search_finally_def Let_def split: sum.splits)

lemma searchUsers_settled_frame:
  "query (app (searchUsers_settled r w)) = query (app w)"
  "debounceTimeout (searchUsers_settled r w) = debounceTimeout w"
  by (simp_all add: searchUsers_settled_def search_catch_def search_finally_def
      fetchAvatarUrls_def Let_def split: sum.splits option.splits)

lemma fetchAvatarUrls_settled_frame:
  "query (app (fetchAvatarUrls_settled r w)) = query (app w)"
  "debounceTimeout (fetchAvatarUrls_settled r w) = debounceTimeout w"
  by (simp_all add: fetchAvatarUrls_settled_def setAvatarUrls_def split: sum.splits)

lemma step_timer_current: "timer_current w \<Longrightarrow> timer_current (step w e)"
proof (cases e)
  case (Change new)
  then show "timer_current w \<Longrightarrow> timer_current (step w e)"
    by (auto simp add: timer_current_def useEffect_def split: option.splits)
next
  case (ClickRow i)
  then show "timer_current w \<Longrightarrow> timer_current (step w e)"
    by (auto simp add: timer_current_def useEffect_def handleUserClick_def
        split: option.splits dropdown.splits)
next
  case (Elapse ms)
  then show "timer_current w \<Longrightarrow> timer_current (step w e)"
    by (auto simp add: timer_current_def searchUsers_frame split: option.splits)
next
  case (SearchSettles r)
  then show "timer_current w \<Longrightarrow> timer_current (step w e)"
    by (auto simp add: timer_current_def searchUsers_settled_frame split: option.splits)
next
  case (AvatarsSettle r)
  then show "timer_current w \<Longrightarrow> timer_current (step w e)"
    by (auto simp add: timer_current_def fetchAvatarUrls_settled_frame split: option.splits)
qed (auto simp add: timer_current_def onClickSearch_def handleClickOutside_def onOpenChange_def
    split: option.splits)

lemma run_timer_current: "timer_current w \<Longrightarrow> timer_current (run w es)"
  by (induction es arbitrary: w) (simp_all add: run_def step_timer_current)

lemma mounted_timer_current: "timer_current mounted"
  by (simp add: timer_current_def mounted_def useState_def)

text \<open>
  C7, as the code has it. In every state the mounted component can reach: something is
  rendered below the input only when the text is not empty (line 132 guards the dropdown
  flag with the length of the text); a pending timer was set for the current text and has
  at most 300 ms left; and when it fires for a text shorter than two code units, the
  results are emptied and the error cleared.
\<close>

theorem rendered_only_with_text:
  "(dropdown_state (app (run mounted es)) \<noteq> Hidden \<longrightarrow> query (app (run mounted es)) \<noteq> [])
   \<and> (debounceTimeout (run mounted es) = Some (q, left) \<longrightarrow>
        q = query (app (run mounted es)) \<and> left \<le> 300
        \<and> (length q < 2 \<and> left \<le> ms \<longrightarrow>
             users (app (step (run mounted es) (Elapse ms))) = []
           \<and> error (app (step (run mounted es) (Elapse ms))) = None))"
proof -
  have "timer_current (run mounted es)"
    by (rule run_timer_current [OF mounted_timer_current])
  then have "q = query (app (run mounted es)) \<and> left \<le> 300"
    if "debounceTimeout (run mounted es) = Some (q, left)"
    using that by (simp add: timer_current_def)
  moreover have "users (app (step (run mounted es) (Elapse ms))) = []
      \<and> error (app (step (run mounted es) (Elapse ms))) = None"
    if "debounceTimeout (run mounted es) = Some (q, left)" "length q < 2 \<and> left \<le> ms"
    using that by (simp add: searchUsers_def)
  moreover have "query (app (run mounted es)) \<noteq> []"
    if "dropdown_state (app (run mounted es)) \<noteq> Hidden"
    using that by (auto simp add: dropdown_state_def split: if_splits)
  ultimately show ?thesis by blast
qed

theorem rendered_only_with_text_witness:
  "dropdown_state (app (run mounted [Change (js ''ro''), Elapse 300, SearchSettles found, Change (js ''r'')]))
      \<noteq> Hidden
   \<and> query (app (run mounted [Change (js ''ro''), Elapse 300, SearchSettles found, Change (js ''r'')])) \<noteq> []
   \<and> debounceTimeout (run mounted [Change (js ''ro''), Elapse 300, SearchSettles found, Change (js ''r'')])
       = Some (js ''r'', 300)
   \<and> length (js ''r'') < 2
   \<and> users (app (run mounted [Change (js ''ro''), Elapse 300, SearchSettles found, Change (js ''r'')]))
       = [roblox]
   \<and> users (app (step (run mounted [Change (js ''ro''), Elapse 300, SearchSettles found, Change (js ''r'')])
        (Elapse 300))) = []"
proof -
  let ?w = "run mounted [Change (js ''ro''), Elapse 300, SearchSettles found, Change (js ''r'')]"
  have w: "?w = step showing_ro (Change (js ''r''))"
    by (simp add: showing_ro_def run_def)
  have shown: "dropdown_state (app ?w) \<noteq> Hidden"
    unfolding w by (simp add: showing_ro_state dropdown_state_def useEffect_def js_def)
  have timer: "debounceTimeout ?w = Some (js ''r'', 300)"
    unfolding w by (simp add: showing_ro_state useEffect_def js_def)
  have short: "length (js ''r'') < 2" by (simp add: js_def)
  have still: "users (app ?w) = [roblox]"
    unfolding w by (simp add: showing_ro_state useEffect_def)
  note fact = rendered_only_with_text
    [of "[Change (js ''ro''), Elapse 300, SearchSettles found, Change (js ''r'')]" "js ''r''" 300 300]
  from fact shown have typed: "query (app ?w) \<noteq> []" by blast
  from fact timer short have cleared: "users (app (step ?w (Elapse 300))) = []" by simp
  from shown typed timer short still cleared show ?thesis by blast
qed

text \<open>
  C7, as the specification words it, fails. The text \<^verbatim>\<open>ro\<close> is searched for, the text is
  cut to \<^verbatim>\<open>r\<close> while the request is in flight, the timer fires and clears the
  results, then the response arrives: the text has one code unit, no timer is pending,
  nothing is in flight, and the results are not empty. And the dropdown flag itself can
  be true with an empty text: the search button sets it.
\<close>

theorem results_outlive_short_text:
  "length (query (app (run mounted
      [Change (js ''ro''), Elapse 300, Change (js ''r''), Elapse 300, SearchSettles found]))) < 2
   \<and> users (app (run mounted
      [Change (js ''ro''), Elapse 300, Change (js ''r''), Elapse 300, SearchSettles found])) = [roblox]
   \<and> debounceTimeout (run mounted
      [Change (js ''ro''), Elapse 300, Change (js ''r''), Elapse 300, SearchSettles found]) = None
   \<and> searching (run mounted
      [Change (js ''ro''), Elapse 300, Change (js ''r''), Elapse 300, SearchSettles found]) = 0
   \<and> showDropdown (app (run mounted [ClickSearch]))
   \<and> query (app (run mounted [ClickSearch])) = []"
  by (simp add: found_def world_defs string_defs)

subsection \<open>Errors and results\<close>

lemma step_error_excludes_results:
  assumes "error_excludes_results w" and "if starts_cycle w e then searching w = 0 else True"
  shows "error_excludes_results (step w e)"
proof (cases e)
  case (Change new)
  with assms(1) show ?thesis
    by (simp add: error_excludes_results_def useEffect_def)
next
  case ClickSearch
  with assms(1) show ?thesis
    by (simp add: error_excludes_results_def onClickSearch_def)
next
  case (MouseDown inside)
  with assms(1) show ?thesis
    by (simp add: error_excludes_results_def handleClickOutside_def)
next
  case (ClickRow i)
  with assms(1) show ?thesis
    by (simp add: error_excludes_results_def handleUserClick_def useEffect_def
        split: dropdown.splits)
next
  case (OpenChange opened)
  with assms(1) show ?thesis
    by (simp add: error_excludes_results_def onOpenChange_def)
next
  case (Elapse ms)
  show ?thesis
  proof (cases "debounceTimeout w")
    case None
    with Elapse assms(1) show ?thesis by (simp add: error_excludes_results_def)
  next
    case (Some pending)
    obtain q left where pending: "pending = (q, left)" by (cases pending)
    show ?thesis
    proof (cases "left \<le> ms")
      case False
      with Elapse Some pending assms(1) show ?thesis by (simp add: error_excludes_results_def)
    next
      case True
      show ?thesis
      proof (cases "length q < 2")
        case True
        with Elapse Some pending \<open>left \<le> ms\<close> assms(1) show ?thesis
          by (simp add: error_excludes_results_def searchUsers_def split: if_splits)
      next
        case False
        with Elapse Some pending \<open>left \<le> ms\<close> assms(2) have "searching w = 0"
          by (simp add: starts_cycle_def)
        with Elapse Some pending \<open>left \<le> ms\<close> False show ?thesis
          by (simp add: error_excludes_results_def searchUsers_def search_catch_def
              search_finally_def Let_def split: sum.splits)
      qed
    qed
  qed
next
  case (SearchSettles r)
  show ?thesis
  proof (cases "searching w = 0")
    case True
    with SearchSettles assms(1) show ?thesis by simp
  next
    case False
    with assms(1) have "error (app w) = None" "searching w = 1"
      by (simp_all add: error_excludes_results_def)
    with SearchSettles show ?thesis
      by (simp add: error_excludes_results_def searchUsers_settled_def search_catch_def
          search_finally_def fetchAvatarUrls_def Let_def split: sum.splits option.splits)
  qed
next
  case (AvatarsSettle r)
  with assms(1) show ?thesis
    by (simp add: error_excludes_results_def fetchAvatarUrls_settled_def setAvatarUrls_def
        split: sum.splits)
qed

lemma run_error_excludes_results:
  "error_excludes_results w \<Longrightarrow> one_at_a_time w es \<Longrightarrow> error_excludes_results (run w es)"
proof (induction es arbitrary: w)
  case Nil
  then show ?case by (simp add: run_def)
next
  case (Cons e es)
  from Cons.prems have "error_excludes_results (step w e)" "one_at_a_time (step w e) es"
    by (simp_all add: step_error_excludes_results)
  then show ?case by (simp add: run_Cons Cons.IH)
qed

text \<open>
  C10, as the code has it. In every state reached by a run in which no search cycle
  starts while a search request is in flight, an error excludes results. The update that
  sets the error empties the results with it; a cycle clears the error when it is
  dispatched; the update that sets the results on success leaves the error as it is.
\<close>

theorem error_excludes_results_sequentially:
  assumes "one_at_a_time mounted es"
  shows "(error (app (run mounted es)) \<noteq> None \<longrightarrow> users (app (run mounted es)) = [])
       \<and> error (search_catch t s) = Some (errorMessage t) \<and> users (search_catch t s) = []
       \<and> (2 \<le> length q \<and> encodeURIComponent q = Inr keyword \<longrightarrow>
            error (app (searchUsers q w)) = None)
       \<and> (search_awaited r = Inr d \<longrightarrow>
            error (app (searchUsers_settled r w)) = error (app w))"
proof -
  have "error_excludes_results mounted"
    by (simp add: error_excludes_results_def mounted_def useState_def)
  from run_error_excludes_results [OF this assms]
  have "error (app (run mounted es)) \<noteq> None \<longrightarrow> users (app (run mounted es)) = []"
    by (simp add: error_excludes_results_def)
  moreover have "error (search_catch t s) = Some (errorMessage t) \<and> users (search_catch t s) = []"
    by (simp add: search_catch_def)
  moreover have "error (app (searchUsers q w)) = None"
    if "2 \<le> length q \<and> encodeURIComponent q = Inr keyword"
    using that by (simp add: searchUsers_def)
  moreover have "error (app (searchUsers_settled r w)) = error (app w)"
    if "search_awaited r = Inr d"
    using that
    by (simp add: searchUsers_settled_def search_finally_def fetchAvatarUrls_def Let_def
        split: option.splits)
  ultimately show ?thesis by blast
qed

theorem error_excludes_results_sequentially_witness:
  "one_at_a_time mounted [Change (js ''ro''), Elapse 300, SearchSettles (Response 500 (Json None))]
   \<and> error (app (run mounted
        [Change (js ''ro''), Elapse 300, SearchSettles (Response 500 (Json None))])) \<noteq> None
   \<and> users (app (run mounted
        [Change (js ''ro''), Elapse 300, SearchSettles (Response 500 (Json None))])) = []"
proof -
  have alone: "one_at_a_time mounted
      [Change (js ''ro''), Elapse 300, SearchSettles (Response 500 (Json None))]"
    by (simp add: starts_cycle_def mounted_def useState_def useEffect_def js_def)
  have failed: "error (app (run mounted
        [Change (js ''ro''), Elapse 300, SearchSettles (Response 500 (Json None))])) \<noteq> None"
    by (simp add: world_defs string_defs)
  from error_excludes_results_sequentially [OF alone] failed
  have "users (app (run mounted
        [Change (js ''ro''), Elapse 300, SearchSettles (Response 500 (Json None))])) = []"
    by blast
  with alone failed show ?thesis by blast
qed

text \<open>
  C10, as the specification words it, fails: two searches in flight, for \<^verbatim>\<open>ro\<close> and for
  \<^verbatim>\<open>rob\<close>; the first settles with status 500, the second with one profile. The
  state then holds the error of the first beside the result of the second.
\<close>

theorem error_beside_results:
  "error (app (run mounted
      [Change (js ''ro''), Elapse 300, Change (js ''rob''), Elapse 300,
       SearchSettles (Response 500 (Json None)), SearchSettles found]))
     = Some (js ''HTTP error! status: 500'')
   \<and> users (app (run mounted
      [Change (js ''ro''), Elapse 300, Change (js ''rob''), Elapse 300,
       SearchSettles (Response 500 (Json None)), SearchSettles found])) = [roblox]"
  by (simp add: found_def world_defs string_defs digits.simps)

end
